theory Spec2Isabelle
  imports Main
begin

section \<open>Errors\<close>

text \<open>\<^verbatim>\<open>assert\<close> of base/error.ts raises when its condition is false; the model
  returns the error as a value and leaves the state as it was.\<close>

datatype error = AssertionError string | DecodeError

section \<open>Schema registry (cfds/base/schema-manager.ts)\<close>

text \<open>A reference to a schema, as an upgrade function sees the schema the data had before
  the step: its namespace and version.\<close>

type_synonym schema_ref = "string option \<times> nat"

text \<open>Modelled from the spec: the type \<^verbatim>\<open>Schema\<close> of cfds/base/schema.ts, which is
  not among the sources. Its attributes are \<^verbatim>\<open>ns\<close> (a nullable string),
  \<^verbatim>\<open>version\<close> (a non-negative integer) and the optional
  \<^verbatim>\<open>upgrade(data, fromSchema) -> data\<close>. The second argument of an upgrade function is
  passed as a \<^typ>\<open>schema_ref\<close>.\<close>

record 'd schema =
  ns :: "string option"
  version :: nat
  upgrade :: "('d \<Rightarrow> schema_ref \<Rightarrow> 'd) option"


text \<open>Modelled from the spec: the constant \<^verbatim>\<open>kNullSchema\<close> of cfds/base/schema.ts,
  the universal empty schema whose namespace is null.\<close>

definition kNullSchema :: "'d schema" where
  "kNullSchema = \<lparr>ns = None, version = 0, upgrade = None\<rparr>"


text \<open>The field \<^verbatim>\<open>_schemas: Map<string, Schema[]>\<close>.\<close>

type_synonym 'd registry = "string \<rightharpoonup> 'd schema list"

text \<open>\<^verbatim>\<open>arr.sort((s1, s2) => s2.version - s1.version)\<close>: a stable sort, descending by
  version.\<close>

definition sort_desc :: "'d schema list \<Rightarrow> 'd schema list" where
  "sort_desc arr = sort_key (\<lambda>s. - int (version s)) arr"

definition registerSchema :: "'d schema \<Rightarrow> 'd registry \<Rightarrow> error + 'd registry" where
  "registerSchema sch schemas =
     (case ns sch of
        None \<Rightarrow> Inl (AssertionError [])
      | Some n \<Rightarrow>
          (let schemas1 = (case schemas n of None \<Rightarrow> schemas(n \<mapsto> []) | Some _ \<Rightarrow> schemas);
               arr = (case schemas n of None \<Rightarrow> [] | Some a \<Rightarrow> a)
           in if find (\<lambda>s. version s = version sch) arr = None
              then Inr (schemas1(n \<mapsto> sort_desc (arr @ [sch])))
              else Inr schemas1))"

text \<open>The registry after a sequence of \<^verbatim>\<open>registerSchema\<close> calls on a fresh map; a call
  that raises leaves the map as it was. The constructor is such a sequence (the three
  built-in schemas), and so is every registry a program can reach.\<close>

definition register_call :: "'d registry \<Rightarrow> 'd schema \<Rightarrow> 'd registry" where
  "register_call schemas sch =
     (case registerSchema sch schemas of Inl _ \<Rightarrow> schemas | Inr schemas' \<Rightarrow> schemas')"

definition registered :: "'d schema list \<Rightarrow> 'd registry" where
  "registered ss = foldl register_call Map.empty ss"

text \<open>The schemas a registry holds.\<close>

definition stored :: "'d registry \<Rightarrow> 'd schema set" where
  "stored schemas = {s. \<exists>n arr. schemas n = Some arr \<and> s \<in> set arr}"

text \<open>\<^verbatim>\<open>get(ns, version?)\<close>. The version argument is a JavaScript number or absent:
  \<open>None\<close> stands for \<^verbatim>\<open>undefined\<close> and for \<^verbatim>\<open>NaN\<close>, which are both falsy and which
  \<^verbatim>\<open>get\<close> does not tell apart; \<open>Some 0\<close> is falsy as well. \<^verbatim>\<open>arr[0]\<close> of an empty
  array is \<^verbatim>\<open>undefined\<close>.\<close>

definition truthy :: "int option \<Rightarrow> bool" where
  "truthy v = (case v of None \<Rightarrow> False | Some i \<Rightarrow> i \<noteq> 0)"

definition get :: "'d registry \<Rightarrow> string \<Rightarrow> int option \<Rightarrow> 'd schema option" where
  "get schemas n v =
     (case schemas n of
        None \<Rightarrow> None
      | Some arr \<Rightarrow>
          if truthy v then find (\<lambda>s. Some (int (version s)) = v) arr
          else (case arr of [] \<Rightarrow> None | s # _ \<Rightarrow> Some s))"





subsection \<open>What the properties of the registry are stated with\<close>

text \<open>A namespace has a version when the registry holds a schema of that namespace and
  version.\<close>

definition has_version :: "'d registry \<Rightarrow> string \<Rightarrow> nat \<Rightarrow> bool" where
  "has_version schemas n v \<longleftrightarrow> (\<exists>s \<in> stored schemas. ns s = Some n \<and> version s = v)"

text \<open>The invariant of a registry: an array that is there is not empty, holds schemas of
  its own namespace only, holds no version twice and is in descending order of version.\<close>

definition reg_inv :: "'d registry \<Rightarrow> bool" where
  "reg_inv schemas \<longleftrightarrow>
     (\<forall>n arr. schemas n = Some arr \<longrightarrow>
        arr \<noteq> [] \<and> (\<forall>s \<in> set arr. ns s = Some n) \<and> distinct (map version arr) \<and>
        sorted (map (\<lambda>s. - int (version s)) arr))"




text \<open>Schemas for concrete inputs: four versions of a namespace \<^verbatim>\<open>User\<close> over data that
  are numbers, and a schema whose namespace holds a slash.\<close>

definition user_v0 :: "nat schema" where
  "user_v0 = \<lparr>ns = Some ''User'', version = 0, upgrade = None\<rparr>"

definition user_v1 :: "nat schema" where
  "user_v1 = \<lparr>ns = Some ''User'', version = 1, upgrade = None\<rparr>"

definition user_v2 :: "nat schema" where
  "user_v2 = \<lparr>ns = Some ''User'', version = 2, upgrade = Some (\<lambda>d _. d + 10)\<rparr>"

definition user_v3 :: "nat schema" where
  "user_v3 = \<lparr>ns = Some ''User'', version = 3, upgrade = Some (\<lambda>d _. d * 2)\<rparr>"

definition user_huge :: "nat schema" where
  "user_huge = \<lparr>ns = Some ''User'', version = 10 ^ 21, upgrade = None\<rparr>"

definition slash_v1 :: "nat schema" where
  "slash_v1 = \<lparr>ns = Some ''a/b'', version = 1, upgrade = None\<rparr>"

subsection \<open>Schema markers\<close>

text \<open>Strings are lists of code units below 256. The template literal
  \<^verbatim>\<open>`${schema.ns}/${schema.version}`\<close> writes the version with \<^verbatim>\<open>Number::toString\<close>.
  Below \<open>2\<^sup>5\<^sup>3\<close> every integer is a double of its own and is written with all its
  decimal digits. From there on the digits are the shortest ones that read back as the
  same double, and from \<open>10\<^sup>2\<^sup>1\<close> on the notation has an exponent; that part is the
  parameter \<open>big\<close>.\<close>

definition digit_char :: "nat \<Rightarrow> char" where
  "digit_char d = char_of (48 + d)"

text \<open>The characters \<^verbatim>\<open>0\<close> to \<^verbatim>\<open>9\<close>.\<close>

definition dec_digit :: "char \<Rightarrow> bool" where
  "dec_digit c \<longleftrightarrow> 48 \<le> (of_char c :: nat) \<and> (of_char c :: nat) \<le> 57"

function decimal :: "nat \<Rightarrow> string" where
  "decimal n = (if n < 10 then [digit_char n] else decimal (n div 10) @ [digit_char (n mod 10)])"
  by pat_completeness auto
termination
  by (relation "measure id") auto

declare decimal.simps [simp del]

definition max_safe :: nat where
  "max_safe = 2 ^ 53"

definition toString :: "(nat \<Rightarrow> string) \<Rightarrow> nat \<Rightarrow> string" where
  "toString big n = (if n < max_safe then decimal n else big n)"

definition encode :: "(nat \<Rightarrow> string) \<Rightarrow> 'd schema \<Rightarrow> string" where
  "encode big sch =
     (case ns sch of None \<Rightarrow> ''null'' | Some n \<Rightarrow> n @ ''/'' @ toString big (version sch))"

text \<open>\<^verbatim>\<open>str.split('/')\<close>: the pieces between the separators, at least one.\<close>

function split :: "char \<Rightarrow> string \<Rightarrow> string list" where
  "split sep s =
     takeWhile (\<lambda>c. c \<noteq> sep) s #
       (case dropWhile (\<lambda>c. c \<noteq> sep) s of [] \<Rightarrow> [] | _ # rest \<Rightarrow> split sep rest)"
  by pat_completeness auto
termination
proof (relation "measure (\<lambda>(sep, s). length s)")
  show "wf (measure (\<lambda>(sep, s). length s))"
    by simp
next
  fix sep :: char and s :: string and x rest
  assume "dropWhile (\<lambda>c. c \<noteq> sep) s = x # rest"
  then have "Suc (length rest) = length (dropWhile (\<lambda>c. c \<noteq> sep) s)"
    by simp
  also have "\<dots> \<le> length s"
    by (rule length_dropWhile_le)
  finally show "((sep, rest), (sep, s)) \<in> measure (\<lambda>(sep, s). length s)"
    by simp
qed

declare split.simps [simp del]

text \<open>\<^verbatim>\<open>parseInt(ver)\<close> with no radix: white space is skipped, then an optional sign, then
  \<^verbatim>\<open>0x\<close> or \<^verbatim>\<open>0X\<close> selects radix 16, then the longest run of digits of the radix is
  read; when there is none the result is \<^verbatim>\<open>NaN\<close> (\<open>None\<close>). An absent argument is the
  string \<^verbatim>\<open>undefined\<close>. The white space below code unit 256 is the ASCII white space and
  the no-break space. Digits whose value is below \<open>2\<^sup>5\<^sup>3\<close> give that value; for a larger
  value the result is a double near it, the parameter \<open>to_double\<close>.\<close>

definition isWhiteSpace :: "char \<Rightarrow> bool" where
  "isWhiteSpace c =
     (c \<in> set [CHR 0x09, CHR 0x0A, CHR 0x0B, CHR 0x0C, CHR 0x0D, CHR 0x20, CHR 0xA0])"

definition digit_val :: "nat \<Rightarrow> char \<Rightarrow> nat option" where
  "digit_val radix c =
     (let k = (of_char c :: nat);
          d = (if 48 \<le> k \<and> k \<le> 57 then Some (k - 48)
               else if 97 \<le> k \<and> k \<le> 122 then Some (k - 87)
               else if 65 \<le> k \<and> k \<le> 90 then Some (k - 55)
               else None)
      in case d of None \<Rightarrow> None | Some v \<Rightarrow> if v < radix then Some v else None)"

fun parse_digits :: "nat \<Rightarrow> string \<Rightarrow> nat option \<Rightarrow> nat option" where
  "parse_digits radix [] acc = acc"
| "parse_digits radix (c # cs) acc =
     (case digit_val radix c of
        None \<Rightarrow> acc
      | Some d \<Rightarrow>
          parse_digits radix cs (Some (case acc of None \<Rightarrow> d | Some a \<Rightarrow> a * radix + d)))"

definition strip_sign :: "string \<Rightarrow> int \<times> string" where
  "strip_sign s =
     (case s of
        [] \<Rightarrow> (1, s)
      | c # r \<Rightarrow> if c = CHR ''-'' then (- 1, r) else if c = CHR ''+'' then (1, r) else (1, s))"

definition strip_radix :: "string \<Rightarrow> nat \<times> string" where
  "strip_radix s =
     (case s of
        c # x # r \<Rightarrow>
          if c = CHR ''0'' \<and> (x = CHR ''x'' \<or> x = CHR ''X'') then (16, r) else (10, s)
      | _ \<Rightarrow> (10, s))"

definition parseInt :: "(nat \<Rightarrow> int) \<Rightarrow> string option \<Rightarrow> int option" where
  "parseInt to_double arg =
     (let (sign, s) = strip_sign (dropWhile isWhiteSpace (case arg of None \<Rightarrow> ''undefined'' | Some a \<Rightarrow> a));
          (radix, ds) = strip_radix s
      in map_option (\<lambda>k. sign * (if k < max_safe then int k else to_double k))
           (parse_digits radix ds None))"

text \<open>\<^verbatim>\<open>decode(str)\<close>: \<^verbatim>\<open>const [ns, ver] = str.split('/')\<close> takes the first two pieces;
  \<^verbatim>\<open>ver\<close> is \<^verbatim>\<open>undefined\<close> when there is one piece only.\<close>

definition decode :: "(nat \<Rightarrow> int) \<Rightarrow> 'd registry \<Rightarrow> string \<Rightarrow> 'd schema option" where
  "decode to_double schemas str =
     (if str = ''null'' then Some kNullSchema
      else
        (case split (CHR ''/'') str of
           [] \<Rightarrow> None
         | n # rest \<Rightarrow>
             get schemas n (parseInt to_double (case rest of [] \<Rightarrow> None | ver # _ \<Rightarrow> Some ver))))"

section \<open>Authorization rules (cfds/base/schema-manager.ts)\<close>

datatype auth_op = Read | Write

text \<open>\<^verbatim>\<open>Session\<close> of db/session.ts: the rules read its \<^verbatim>\<open>owner\<close> only.\<close>

record session =
  owner :: string

type_synonym 'db auth_rule = "'db \<Rightarrow> string \<Rightarrow> string \<Rightarrow> session \<Rightarrow> auth_op \<Rightarrow> bool"

text \<open>A \<^verbatim>\<open>RegExp\<close> object: its identity (what \<^verbatim>\<open>===\<close> compares) and the answer of
  \<^verbatim>\<open>test\<close> once \<^verbatim>\<open>lastIndex\<close> has been set to 0.\<close>

datatype regexp = RegExp (re_ref: nat) (re_test: "string \<Rightarrow> bool")

datatype rule_path = PathString string | PathRegExp regexp

record 'db auth_entry =
  rulePath :: rule_path
  rule :: "'db auth_rule"

type_synonym 'db auth_config = "'db auth_entry list"

text \<open>\<^verbatim>\<open>===\<close> on values of type \<^verbatim>\<open>RegExp | string\<close>: strings by content, objects by
  identity, and a string never equals an object.\<close>

fun strict_eq :: "rule_path \<Rightarrow> rule_path \<Rightarrow> bool" where
  "strict_eq (PathString a) (PathString b) = (a = b)"
| "strict_eq (PathRegExp a) (PathRegExp b) = (re_ref a = re_ref b)"
| "strict_eq _ _ = False"

text \<open>The pattern \<^verbatim>\<open>/[/]sys[/]\S*/g\<close> matches somewhere in a string exactly when the
  string contains \<^verbatim>\<open>/sys/\<close> (\<^verbatim>\<open>\S*\<close> also matches nothing).\<close>

fun starts_with :: "string \<Rightarrow> string \<Rightarrow> bool" where
  "starts_with [] s = True"
| "starts_with (p # ps) [] = False"
| "starts_with (p # ps) (c # cs) = (p = c \<and> starts_with ps cs)"

fun contains :: "string \<Rightarrow> string \<Rightarrow> bool" where
  "contains pat [] = starts_with pat []"
| "contains pat (c # cs) = (starts_with pat (c # cs) \<or> contains pat cs)"

definition sys_regexp :: regexp where
  "sys_regexp = RegExp 0 (contains ''/sys/'')"

definition kBuiltinAuthRules :: "'db auth_config" where
  "kBuiltinAuthRules =
     [\<lparr>rulePath = PathString ''/sys/users'',
       rule = (\<lambda>_ _ itemKey session op.
                 if owner session = ''root'' then True
                 else if owner session = itemKey then True
                 else op = Read)\<rparr>,
      \<lparr>rulePath = PathString ''/sys/sessions'',
       rule = (\<lambda>_ _ _ session op. if owner session = ''root'' then True else op = Read)\<rparr>,
      \<lparr>rulePath = PathString ''/sys/stats'',
       rule = (\<lambda>_ _ _ session _. owner session = ''root'')\<rparr>,
      \<lparr>rulePath = PathRegExp sys_regexp,
       rule = (\<lambda>_ _ _ session _. owner session = ''root'')\<rparr>]"

text \<open>\<^verbatim>\<open>registerAuthRule(path, rule)\<close> on the field \<^verbatim>\<open>_authRules\<close>. The helper
  \<^verbatim>\<open>itemPathGetRepoId\<close> is not among the sources and is a parameter. The loop asserts
  \<^verbatim>\<open>p === path\<close> for every rule already there.\<close>

definition registerAuthRule ::
  "(string \<Rightarrow> string) \<Rightarrow> rule_path \<Rightarrow> 'db auth_rule \<Rightarrow> 'db auth_config \<Rightarrow> error + 'db auth_config" where
  "registerAuthRule itemPathGetRepoId path r authRules =
     (let path1 = (case path of
                     PathString p \<Rightarrow> PathString (itemPathGetRepoId p)
                   | PathRegExp _ \<Rightarrow> path)
      in if list_all (\<lambda>e. strict_eq (rulePath e) path1) authRules
         then Inr (authRules @ [\<lparr>rulePath = path1, rule = r\<rparr>])
         else Inl (AssertionError ''Attempting to register multiple rules for the same path''))"

text \<open>\<^verbatim>\<open>authRuleForRepo(inputPath)\<close>: each loop returns the rule of the first entry that
  matches; \<open>None\<close> is \<^verbatim>\<open>undefined\<close>. \<^verbatim>\<open>Repository.normalizePath\<close> is not among the
  sources and is a parameter.\<close>

definition user_rule_matches :: "(string \<Rightarrow> string) \<Rightarrow> string \<Rightarrow> string \<Rightarrow> 'db auth_entry \<Rightarrow> bool" where
  "user_rule_matches normalizePath repoId inputPath e =
     (case rulePath e of
        PathString p \<Rightarrow> normalizePath p = repoId
      | PathRegExp re \<Rightarrow> re_test re inputPath)"

definition authRuleForRepo ::
  "(string \<Rightarrow> string) \<Rightarrow> (string \<Rightarrow> string) \<Rightarrow> 'db auth_config \<Rightarrow> string \<Rightarrow> 'db auth_rule option" where
  "authRuleForRepo itemPathGetRepoId normalizePath authRules inputPath =
     (let repoId = itemPathGetRepoId inputPath
      in case find (\<lambda>e. strict_eq (rulePath e) (PathString repoId)) kBuiltinAuthRules of
           Some e \<Rightarrow> Some (rule e)
         | None \<Rightarrow>
             map_option rule (find (user_rule_matches normalizePath repoId inputPath) authRules))"

text \<open>Modelled from the spec: \<^verbatim>\<open>itemPathGetRepoId\<close>, which is not among the sources. The
  repository-id component of an item path \<^verbatim>\<open>/<type>/<repo>/<item>\<close> is
  \<^verbatim>\<open>/<type>/<repo>\<close>. It stands for the parameter at concrete inputs only.\<close>

definition repoIdOf :: "string \<Rightarrow> string" where
  "repoIdOf path =
     (case split (CHR ''/'') path of
        _ # t # r # _ \<Rightarrow> ''/'' @ t @ ''/'' @ r
      | _ \<Rightarrow> path)"

section \<open>Sync messages (net/message.ts)\<close>

text \<open>JavaScript numbers are IEEE doubles. Their arithmetic is not modelled: \<open>'n\<close> is the
  type of numbers, and the operations the code applies to them are parameters.\<close>

record 'n js_math =
  js_num :: "nat \<Rightarrow> 'n"
  js_half :: 'n
  js_one :: 'n
  js_mul :: "'n \<Rightarrow> 'n \<Rightarrow> 'n"
  js_div :: "'n \<Rightarrow> 'n \<Rightarrow> 'n"
  js_pow :: "'n \<Rightarrow> 'n \<Rightarrow> 'n"
  js_min :: "'n \<Rightarrow> 'n \<Rightarrow> 'n"

text \<open>Modelled from the spec: \<^verbatim>\<open>BloomFilter\<close> of base/bloom.ts, which is not among the
  sources. A filter has the size hint and the target false-positive rate it was
  constructed with; the identifiers added to it stand for its bit array. What
  \<^verbatim>\<open>has\<close> answers depends on the hash seeds, so \<^verbatim>\<open>has\<close> is a parameter of the
  functions that call it.\<close>

record 'n bloom =
  bf_size :: nat
  bf_fpr :: 'n
  bf_ids :: "string list"

definition BloomFilter_new :: "nat \<Rightarrow> 'n \<Rightarrow> 'n bloom" where
  "BloomFilter_new sz fpr = \<lparr>bf_size = sz, bf_fpr = fpr, bf_ids = []\<rparr>"

definition bf_add :: "string \<Rightarrow> 'n bloom \<Rightarrow> 'n bloom" where
  "bf_add i f = f\<lparr>bf_ids := bf_ids f @ [i]\<rparr>"

text \<open>\<^verbatim>\<open>SyncMessageConfig\<close> and the fields of \<^verbatim>\<open>SyncMessage\<close>. \<open>'c\<close> is the type
  \<^verbatim>\<open>Commit\<close>, \<open>'v\<close> is \<^verbatim>\<open>VersionNumber\<close>.\<close>

record ('c, 'v, 'n) sync_config =
  cfg_filter :: "'n bloom"
  cfg_size :: nat
  cfg_orgId :: string
  cfg_values :: "'c list option"
  cfg_accessDenied :: "string list option"
  cfg_buildVersion :: "'v option"

record ('c, 'v, 'n) sync_message =
  sm_orgId :: string
  sm_buildVersion :: 'v
  sm_filter :: "'n bloom"
  sm_size :: nat
  sm_values :: "'c list"
  sm_accessDenied :: "string list option"

text \<open>The constructor's branch for a \<^verbatim>\<open>SyncMessageConfig\<close>; \<open>current\<close> is
  \<^verbatim>\<open>getGoatConfig().version\<close>. \<^verbatim>\<open>config.buildVersion || current\<close> takes \<open>current\<close>
  for an absent version and for every falsy one; which values of \<^verbatim>\<open>VersionNumber\<close> are
  falsy is the parameter \<open>falsy\<close>.\<close>

definition SyncMessage_new :: "('v \<Rightarrow> bool) \<Rightarrow> 'v \<Rightarrow> ('c, 'v, 'n) sync_config \<Rightarrow> ('c, 'v, 'n) sync_message" where
  "SyncMessage_new falsy current config =
     \<lparr>sm_orgId = cfg_orgId config,
      sm_buildVersion =
        (case cfg_buildVersion config of
           None \<Rightarrow> current
         | Some v \<Rightarrow> if falsy v then current else v),
      sm_filter = cfg_filter config,
      sm_size = cfg_size config,
      sm_values = (case cfg_values config of None \<Rightarrow> [] | Some vs \<Rightarrow> vs),
      sm_accessDenied = cfg_accessDenied config\<rparr>"

text \<open>The getter \<^verbatim>\<open>accessDenied\<close>: \<^verbatim>\<open>this._accessDenied || []\<close>.\<close>

definition accessDenied :: "('c, 'v, 'n) sync_message \<Rightarrow> string list" where
  "accessDenied m = (case sm_accessDenied m of None \<Rightarrow> [] | Some ad \<Rightarrow> ad)"

subsection \<open>Building a message\<close>

text \<open>The target false-positive rate of \<^verbatim>\<open>build\<close> and \<^verbatim>\<open>buildAsync\<close>:
  \<^verbatim>\<open>lowAccuracy ? 0.5 : Math.min(0.5, 1 / Math.pow(n, 1 / (0.5 * expectedSyncCycles)))\<close>.\<close>

definition build_fpr :: "'n js_math \<Rightarrow> bool \<Rightarrow> nat \<Rightarrow> 'n \<Rightarrow> 'n" where
  "build_fpr m lowAccuracy numberOfEntries expectedSyncCycles =
     (if lowAccuracy then js_half m
      else js_min m (js_half m)
             (js_div m (js_one m)
                (js_pow m (js_num m numberOfEntries)
                   (js_div m (js_one m) (js_mul m (js_half m) expectedSyncCycles)))))"

text \<open>The body of the scan, on the three variables it updates: the local filter,
  \<^verbatim>\<open>localSize\<close> and \<^verbatim>\<open>missingPeerValues\<close>.\<close>

definition scan_step ::
  "('n bloom \<Rightarrow> string \<Rightarrow> bool) \<Rightarrow> 'n bloom \<Rightarrow> string \<times> 'c \<Rightarrow> 'n bloom \<times> nat \<times> 'c list \<Rightarrow> 'n bloom \<times> nat \<times> 'c list" where
  "scan_step has peerFilter entry st =
     (case (entry, st) of
        ((i, v), (localFilter, localSize, missingPeerValues)) \<Rightarrow>
          (bf_add i localFilter, localSize + 1,
           if \<not> has peerFilter i then missingPeerValues @ [v] else missingPeerValues))"

fun scan_loop ::
  "('n bloom \<Rightarrow> string \<Rightarrow> bool) \<Rightarrow> 'n bloom \<Rightarrow> (string \<times> 'c) list \<Rightarrow> 'n bloom \<times> nat \<times> 'c list \<Rightarrow> 'n bloom \<times> nat \<times> 'c list" where
  "scan_loop has peerFilter [] st = st"
| "scan_loop has peerFilter (entry # rest) st =
     scan_loop has peerFilter rest (scan_step has peerFilter entry st)"

text \<open>Modelled from the spec: \<^verbatim>\<open>CoroutineScheduler.forEach\<close> and
  \<^verbatim>\<open>CoroutineScheduler.map\<close> of base/coroutine.ts, which is not among the sources. Both
  process the whole input in order and return when it is done; between items they only
  yield. An exception of the body of \<^verbatim>\<open>map\<close> rejects the promise.\<close>

fun scheduler_forEach :: "('a \<Rightarrow> 's \<Rightarrow> 's) \<Rightarrow> 'a list \<Rightarrow> 's \<Rightarrow> 's" where
  "scheduler_forEach body [] st = st"
| "scheduler_forEach body (x # xs) st = scheduler_forEach body xs (body x st)"

fun scheduler_map :: "('a \<Rightarrow> error + 'b) \<Rightarrow> 'a list \<Rightarrow> error + 'b list" where
  "scheduler_map body [] = Inr []"
| "scheduler_map body (x # xs) =
     (case body x of
        Inl e \<Rightarrow> Inl e
      | Inr y \<Rightarrow> (case scheduler_map body xs of Inl e \<Rightarrow> Inl e | Inr ys \<Rightarrow> Inr (y # ys)))"

definition build ::
  "'n js_math \<Rightarrow> ('n bloom \<Rightarrow> string \<Rightarrow> bool) \<Rightarrow> ('v \<Rightarrow> bool) \<Rightarrow> 'v \<Rightarrow> 'n bloom option \<Rightarrow> (string \<times> 'c) list \<Rightarrow> nat \<Rightarrow> nat \<Rightarrow> 'n \<Rightarrow>
   string \<Rightarrow> bool \<Rightarrow> bool \<Rightarrow> ('c, 'v, 'n) sync_message" where
  "build m has falsy current peerFilter vals localSize peerSize expectedSyncCycles orgId includeMissing lowAccuracy =
     (let numberOfEntries = max 1 (max localSize peerSize);
          fpr = build_fpr m lowAccuracy numberOfEntries expectedSyncCycles;
          localFilter = BloomFilter_new numberOfEntries fpr;
          st = (case peerFilter of
                  Some pf \<Rightarrow>
                    if includeMissing then scan_loop has pf vals (localFilter, 0, [])
                    else (localFilter, localSize, [])
                | None \<Rightarrow> (localFilter, localSize, []))
      in case st of
           (localFilter1, localSize1, missingPeerValues) \<Rightarrow>
             SyncMessage_new falsy current
               \<lparr>cfg_filter = localFilter1, cfg_size = localSize1, cfg_orgId = orgId,
                cfg_values = Some missingPeerValues, cfg_accessDenied = None,
                cfg_buildVersion = None\<rparr>)"

definition buildAsync ::
  "'n js_math \<Rightarrow> ('n bloom \<Rightarrow> string \<Rightarrow> bool) \<Rightarrow> ('v \<Rightarrow> bool) \<Rightarrow> 'v \<Rightarrow> 'n bloom option \<Rightarrow> (string \<times> 'c) list \<Rightarrow> nat \<Rightarrow> nat \<Rightarrow> 'n \<Rightarrow>
   string \<Rightarrow> bool \<Rightarrow> bool \<Rightarrow> ('c, 'v, 'n) sync_message" where
  "buildAsync m has falsy current peerFilter vals localSize peerSize expectedSyncCycles orgId includeMissing lowAccuracy =
     (let numberOfEntries = max 1 (max localSize peerSize);
          fpr = build_fpr m lowAccuracy numberOfEntries expectedSyncCycles;
          localFilter = BloomFilter_new numberOfEntries fpr;
          st = (case peerFilter of
                  Some pf \<Rightarrow>
                    if includeMissing
                    then scheduler_forEach (scan_step has pf) vals (localFilter, 0, [])
                    else (localFilter, localSize, [])
                | None \<Rightarrow> (localFilter, localSize, []))
      in case st of
           (localFilter1, localSize1, missingPeerValues) \<Rightarrow>
             SyncMessage_new falsy current
               \<lparr>cfg_filter = localFilter1, cfg_size = localSize1, cfg_orgId = orgId,
                cfg_values = Some missingPeerValues, cfg_accessDenied = None,
                cfg_buildVersion = None\<rparr>)"

subsection \<open>Decoding a message\<close>

text \<open>What a decoder holds for a message: the keys \<^verbatim>\<open>ver\<close>, \<^verbatim>\<open>f\<close> and \<^verbatim>\<open>s\<close>, and the
  optional keys \<^verbatim>\<open>c\<close> and \<^verbatim>\<open>ad\<close>. \<open>'fe\<close> is an encoded filter, \<open>'ce\<close> an encoded
  commit.\<close>

record ('fe, 'ce, 'v) wire =
  w_ver :: 'v
  w_f :: 'fe
  w_s :: nat
  w_c :: "'ce list option"
  w_ad :: "string list option"

text \<open>The loop of \<^verbatim>\<open>deserialize\<close>: \<^verbatim>\<open>try { values.push(Commit.fromJS(...)) } catch {}\<close>.
  \<^verbatim>\<open>Commit.fromJS\<close> (repo/commit.ts) and the filter's \<^verbatim>\<open>deserialize\<close> are not among
  the sources and are parameters; either may raise.\<close>

fun decode_commits :: "('ce \<Rightarrow> error + 'c) \<Rightarrow> 'ce list \<Rightarrow> 'c list \<Rightarrow> 'c list" where
  "decode_commits fromJS [] vals = vals"
| "decode_commits fromJS (c # cs) vals =
     decode_commits fromJS cs (case fromJS c of Inl _ \<Rightarrow> vals | Inr v \<Rightarrow> vals @ [v])"

definition deserialize ::
  "'n js_math \<Rightarrow> ('n bloom \<Rightarrow> 'fe \<Rightarrow> error + 'n bloom) \<Rightarrow> (string \<Rightarrow> 'ce \<Rightarrow> error + 'c) \<Rightarrow> string \<Rightarrow>
   ('fe, 'ce, 'v) wire \<Rightarrow> error + ('c, 'v, 'n) sync_message" where
  "deserialize m filter_deserialize fromJS orgId decoder =
     (case filter_deserialize (BloomFilter_new 1 (js_half m)) (w_f decoder) of
        Inl e \<Rightarrow> Inl e
      | Inr f \<Rightarrow>
          Inr \<lparr>sm_orgId = orgId,
               sm_buildVersion = w_ver decoder,
               sm_filter = f,
               sm_size = w_s decoder,
               sm_values =
                 decode_commits (fromJS orgId)
                   (case w_c decoder of None \<Rightarrow> [] | Some cs \<Rightarrow> cs) [],
               sm_accessDenied =
                 Some (case w_ad decoder of None \<Rightarrow> [] | Some ad \<Rightarrow> ad)\<rparr>)"

definition decodeAsync ::
  "'n js_math \<Rightarrow> ('n bloom \<Rightarrow> 'fe \<Rightarrow> error + 'n bloom) \<Rightarrow> (string \<Rightarrow> 'ce \<Rightarrow> error + 'c) \<Rightarrow> ('v \<Rightarrow> bool) \<Rightarrow> 'v \<Rightarrow> string \<Rightarrow>
   ('fe, 'ce, 'v) wire \<Rightarrow> error + ('c, 'v, 'n) sync_message" where
  "decodeAsync m filter_deserialize fromJS falsy current orgId decoder =
     (case filter_deserialize (BloomFilter_new 1 (js_half m)) (w_f decoder) of
        Inl e \<Rightarrow> Inl e
      | Inr f \<Rightarrow>
          (case (case w_c decoder of
                   None \<Rightarrow> Inr None
                 | Some cs \<Rightarrow> map_sum id Some (scheduler_map (fromJS orgId) cs)) of
             Inl e \<Rightarrow> Inl e
           | Inr vals \<Rightarrow>
               Inr (SyncMessage_new falsy current
                      \<lparr>cfg_filter = f, cfg_size = w_s decoder, cfg_orgId = orgId,
                       cfg_values = vals,
                       cfg_accessDenied = Some (case w_ad decoder of None \<Rightarrow> [] | Some ad \<Rightarrow> ad),
                       cfg_buildVersion = Some (w_ver decoder)\<rparr>)))"

section \<open>Properties of schema markers\<close>

lemma dec_digit_digit_char: "d < 10 \<Longrightarrow> dec_digit (digit_char d)"
  by (simp add: dec_digit_def digit_char_def)

lemma digit_val_digit_char: "d < 10 \<Longrightarrow> digit_val 10 (digit_char d) = Some d"
  by (simp add: digit_val_def digit_char_def)

lemma dec_digit_val: "dec_digit c \<Longrightarrow> digit_val 10 c \<noteq> None"
  by (auto simp: dec_digit_def digit_val_def Let_def)

lemma dec_digit_not_special:
  assumes "dec_digit c"
  shows "c \<noteq> CHR ''/''" "c \<noteq> CHR ''-''" "c \<noteq> CHR ''+''" "c \<noteq> CHR ''x''" "c \<noteq> CHR ''X''"
    "\<not> isWhiteSpace c"
  using assms by (auto simp: dec_digit_def isWhiteSpace_def)

lemma decimal_digits: "\<forall>c \<in> set (decimal n). dec_digit c"
proof (induction n rule: decimal.induct)
  case (1 n)
  show ?case
  proof (cases "n < 10")
    case True
    then show ?thesis by (simp add: decimal.simps [of n] dec_digit_digit_char)
  next
    case False
    with 1 show ?thesis by (simp add: decimal.simps [of n] dec_digit_digit_char)
  qed
qed

lemma decimal_nonempty: "decimal n \<noteq> []"
  by (simp add: decimal.simps [of n])

lemma parse_digits_snoc:
  assumes "\<forall>x \<in> set xs. digit_val r x \<noteq> None" and "digit_val r c = Some d"
  shows "parse_digits r (xs @ [c]) acc =
           Some (case parse_digits r xs acc of None \<Rightarrow> d | Some a \<Rightarrow> a * r + d)"
  using assms by (induction xs arbitrary: acc) (auto split: option.splits)

lemma parse_digits_decimal: "parse_digits 10 (decimal n) None = Some n"
proof (induction n rule: decimal.induct)
  case (1 n)
  show ?case
  proof (cases "n < 10")
    case True
    then show ?thesis by (simp add: decimal.simps [of n] digit_val_digit_char)
  next
    case False
    have digs: "\<forall>x \<in> set (decimal (n div 10)). digit_val 10 x \<noteq> None"
      using decimal_digits dec_digit_val by blast
    have last: "digit_val 10 (digit_char (n mod 10)) = Some (n mod 10)"
      by (simp add: digit_val_digit_char)
    have "parse_digits 10 (decimal (n div 10) @ [digit_char (n mod 10)]) None =
            Some (n div 10 * 10 + n mod 10)"
      using parse_digits_snoc [OF digs last, of None] 1 False by simp
    with False show ?thesis by (simp add: decimal.simps [of n])
  qed
qed

lemma strip_sign_decimal: "strip_sign (decimal n) = (1, decimal n)"
proof (cases "decimal n")
  case Nil
  then show ?thesis by (simp add: strip_sign_def)
next
  case (Cons c cs)
  then have "dec_digit c" using decimal_digits [of n] by simp
  then show ?thesis using Cons by (simp add: strip_sign_def dec_digit_not_special)
qed

lemma strip_radix_decimal: "strip_radix (decimal n) = (10, decimal n)"
proof (cases "decimal n")
  case Nil
  then show ?thesis by (simp add: strip_radix_def)
next
  case outer: (Cons c cs)
  show ?thesis
  proof (cases cs)
    case Nil
    with outer show ?thesis by (simp add: strip_radix_def)
  next
    case (Cons x r)
    with outer have "dec_digit x" using decimal_digits [of n] by simp
    then show ?thesis using outer Cons by (simp add: strip_radix_def dec_digit_not_special)
  qed
qed

lemma dropWhile_isWhiteSpace_decimal: "dropWhile isWhiteSpace (decimal n) = decimal n"
proof (cases "decimal n")
  case Nil
  then show ?thesis by simp
next
  case (Cons c cs)
  then have "dec_digit c" using decimal_digits [of n] by simp
  then show ?thesis using Cons by (simp add: dec_digit_not_special)
qed

lemma parseInt_decimal:
  "n < max_safe \<Longrightarrow> parseInt to_double (Some (decimal n)) = Some (int n)"
  by (simp add: parseInt_def dropWhile_isWhiteSpace_decimal strip_sign_decimal
      strip_radix_decimal parse_digits_decimal)

lemma split_no_sep:
  assumes "sep \<notin> set s"
  shows "split sep s = [s]"
proof -
  have ne: "\<And>x. x \<in> set s \<Longrightarrow> x \<noteq> sep"
    using assms by auto
  have t: "takeWhile (\<lambda>c. c \<noteq> sep) s = s"
    using ne by (simp add: takeWhile_eq_all_conv)
  have d: "dropWhile (\<lambda>c. c \<noteq> sep) s = []"
    using ne by (simp add: dropWhile_eq_Nil_conv)
  show ?thesis by (subst split.simps) (simp add: t d)
qed

lemma split_at_first_sep:
  assumes "sep \<notin> set a"
  shows "split sep (a @ sep # b) = a # split sep b"
proof -
  have ne: "\<And>x. x \<in> set a \<Longrightarrow> x \<noteq> sep"
    using assms by auto
  have t: "takeWhile (\<lambda>c. c \<noteq> sep) (a @ sep # b) = a"
    using takeWhile_append2 [of a "\<lambda>c. c \<noteq> sep" "sep # b"] ne by simp
  have d: "dropWhile (\<lambda>c. c \<noteq> sep) (a @ sep # b) = sep # b"
    using dropWhile_append2 [of a "\<lambda>c. c \<noteq> sep" "sep # b"] ne by simp
  show ?thesis by (subst split.simps) (simp add: t d)
qed

lemma split_marker:
  assumes "CHR ''/'' \<notin> set n"
  shows "split (CHR ''/'') (n @ CHR ''/'' # decimal v) = [n, decimal v]"
proof -
  have "CHR ''/'' \<notin> set (decimal v)"
    using decimal_digits [of v] dec_digit_not_special(1) by blast
  then show ?thesis using assms by (simp add: split_at_first_sep split_no_sep)
qed

lemma marker_not_null: "n @ CHR ''/'' # decimal v \<noteq> ''null''"
proof
  assume "n @ CHR ''/'' # decimal v = ''null''"
  then have "CHR ''/'' \<in> set ''null''"
    by (metis in_set_conv_decomp)
  then show False by simp
qed

lemma decode_marker:
  assumes "CHR ''/'' \<notin> set n" and "v < max_safe"
  shows "decode to_double schemas (n @ ''/'' @ toString big v) = get schemas n (Some (int v))"
  using assms
  by (simp add: decode_def toString_def marker_not_null split_marker parseInt_decimal)

lemma encode_named:
  "ns s = Some n \<Longrightarrow> encode big s = n @ ''/'' @ toString big (version s)"
  by (simp add: encode_def)

lemma decode_null:
  "decode to_double schemas (encode big (kNullSchema :: 'd schema)) = Some kNullSchema"
  by (simp add: decode_def encode_def kNullSchema_def)

lemma decimal_small:
  "decimal 0 = ''0''" "decimal 1 = ''1''" "decimal 2 = ''2''" "decimal 3 = ''3''"
  "decimal 5 = ''5''"
  by code_simp+

section \<open>Properties of the registry\<close>

lemma reg_inv_empty: "reg_inv Map.empty"
  by (simp add: reg_inv_def)

lemma sort_desc_props:
  "set (sort_desc arr) = set arr"
  "sorted (map (\<lambda>s. - int (version s)) (sort_desc arr))"
  "distinct (map version (sort_desc arr)) = distinct (map version arr)"
  by (simp_all add: sort_desc_def distinct_map)

lemma sort_desc_nonempty: "arr \<noteq> [] \<Longrightarrow> sort_desc arr \<noteq> []"
  by (metis length_sort list.size(3) length_0_conv sort_desc_def)

lemma reg_inv_registerSchema:
  assumes "reg_inv schemas" and "registerSchema sch schemas = Inr schemas'"
  shows "reg_inv schemas'"
proof -
  from assms(2) obtain n where n: "ns sch = Some n"
    by (auto simp: registerSchema_def split: option.splits)
  show ?thesis
  proof (cases "schemas n")
    case None
    then have "schemas' = schemas(n \<mapsto> sort_desc [sch])"
      using assms(2) n by (simp add: registerSchema_def)
    then show ?thesis
      using assms(1) n by (auto simp: reg_inv_def sort_desc_def)
  next
    case (Some arr)
    show ?thesis
    proof (cases "find (\<lambda>s. version s = version sch) arr = None")
      case True
      then have new: "version sch \<notin> version ` set arr"
        by (auto simp: find_None_iff)
      have s': "schemas' = schemas(n \<mapsto> sort_desc (arr @ [sch]))"
        using assms(2) n Some True by (simp add: registerSchema_def)
      have old: "(\<forall>s \<in> set arr. ns s = Some n) \<and> distinct (map version arr)"
        using assms(1) Some by (simp add: reg_inv_def)
      have "sort_desc (arr @ [sch]) \<noteq> []"
        by (rule sort_desc_nonempty) simp
      moreover have "\<forall>s \<in> set (sort_desc (arr @ [sch])). ns s = Some n"
        using old n by (simp add: sort_desc_props)
      moreover have "distinct (map version (sort_desc (arr @ [sch])))"
        using old new by (simp add: sort_desc_props)
      moreover have "sorted (map (\<lambda>s. - int (version s)) (sort_desc (arr @ [sch])))"
        by (rule sort_desc_props)
      ultimately show ?thesis
        using assms(1) unfolding s' reg_inv_def by (simp del: sorted_map)
    next
      case False
      then have "schemas' = schemas"
        using assms(2) n Some by (auto simp: registerSchema_def)
      then show ?thesis using assms(1) by simp
    qed
  qed
qed

lemma reg_inv_register_call: "reg_inv schemas \<Longrightarrow> reg_inv (register_call schemas sch)"
  by (auto simp: register_call_def reg_inv_registerSchema split: sum.splits)

lemma reg_inv_foldl: "reg_inv schemas \<Longrightarrow> reg_inv (foldl register_call schemas ss)"
  by (induction ss arbitrary: schemas) (simp_all add: reg_inv_register_call)

lemma reg_inv_registered: "reg_inv (registered ss)"
  by (simp add: registered_def reg_inv_foldl reg_inv_empty)

lemma find_version_distinct:
  assumes "distinct (map version arr)" and "s \<in> set arr"
  shows "find (\<lambda>t. version t = version s) arr = Some s"
  using assms by (induction arr) (auto simp: image_iff)

lemma stored_lookup:
  assumes "reg_inv schemas" and "s \<in> stored schemas" and "ns s = Some n"
  shows "\<exists>arr. schemas n = Some arr \<and> s \<in> set arr"
  using assms by (fastforce simp: reg_inv_def stored_def)

lemma get_stored_version:
  assumes "reg_inv schemas" and "s \<in> stored schemas" and "ns s = Some n" and "version s \<noteq> 0"
  shows "get schemas n (Some (int (version s))) = Some s"
proof -
  obtain arr where arr: "schemas n = Some arr" "s \<in> set arr"
    using stored_lookup [OF assms(1-3)] by blast
  then have "distinct (map version arr)"
    using assms(1) by (simp add: reg_inv_def)
  then have "find (\<lambda>t. version t = version s) arr = Some s"
    using arr(2) by (rule find_version_distinct)
  then show ?thesis using arr(1) assms(4) by (simp add: get_def truthy_def)
qed

lemma get_unregistered_version:
  assumes "v \<noteq> 0" and "\<forall>s \<in> stored schemas. \<not> (ns s = Some n \<and> int (version s) = v)"
    and "reg_inv schemas"
  shows "get schemas n (Some v) = None"
proof (cases "schemas n")
  case None
  then show ?thesis by (simp add: get_def)
next
  case (Some arr)
  have "\<forall>s \<in> set arr. int (version s) \<noteq> v"
  proof
    fix s assume s: "s \<in> set arr"
    then have "s \<in> stored schemas" using Some by (auto simp: stored_def)
    moreover have "ns s = Some n" using assms(3) Some s by (simp add: reg_inv_def)
    ultimately show "int (version s) \<noteq> v" using assms(2) by blast
  qed
  then have "find (\<lambda>s. Some (int (version s)) = Some v) arr = None"
    by (simp add: find_None_iff)
  then show ?thesis using Some assms(1) by (simp add: get_def truthy_def)
qed

lemma get_falsy_latest:
  assumes "reg_inv schemas" and "schemas n = Some arr" and "\<not> truthy v"
  shows "get schemas n v = Some (hd arr) \<and> hd arr \<in> set arr \<and>
         (\<forall>t \<in> set arr. version t \<le> version (hd arr))"
proof -
  from assms(1,2) have ne: "arr \<noteq> []" and srt: "sorted (map (\<lambda>s. - int (version s)) arr)"
    by (simp_all add: reg_inv_def del: sorted_map)
  then obtain s rest where arr: "arr = s # rest" by (cases arr) auto
  have "\<forall>t \<in> set arr. version t \<le> version s"
    using srt arr by auto
  then show ?thesis using assms(2,3) arr by (simp add: get_def)
qed

lemmas examples_defs =
  user_v0_def user_v1_def user_v2_def user_v3_def slash_v1_def user_huge_def
lemmas register_defs = registered_def register_call_def registerSchema_def sort_desc_def

lemma registered_examples:
  "registered [user_v1] = [''User'' \<mapsto> [user_v1]]"
  "registered [user_v1, user_v0] = [''User'' \<mapsto> [user_v1, user_v0]]"
  "registered [user_v1, user_v3] = [''User'' \<mapsto> [user_v3, user_v1]]"
  "registered [user_v1, user_v2] = [''User'' \<mapsto> [user_v2, user_v1]]"
  "registered [user_v1, user_v2, user_v3] = [''User'' \<mapsto> [user_v3, user_v2, user_v1]]"
  "registered [slash_v1] = [''a/b'' \<mapsto> [slash_v1]]"
  "registered [user_huge] = [''User'' \<mapsto> [user_huge]]"
  by (simp_all add: register_defs examples_defs)

lemma stored_single: "stored [n \<mapsto> arr] = set arr"
  by (auto simp: stored_def split: if_splits)

text \<open>With a falsy version argument \<^verbatim>\<open>get\<close> returns the first schema of the array,
  which has the highest version.\<close>

lemma get_falsy_is_latest:
  assumes "has_version (registered ss) n v"
  shows "\<exists>l. get (registered ss) n (Some 0) = Some l \<and> get (registered ss) n None = Some l \<and>
             l \<in> stored (registered ss) \<and> ns l = Some n \<and>
             (\<forall>t \<in> stored (registered ss). ns t = Some n \<longrightarrow> version t \<le> version l)"
proof -
  let ?R = "registered ss"
  have inv: "reg_inv ?R" by (rule reg_inv_registered)
  from assms obtain s where s: "s \<in> stored ?R" "ns s = Some n"
    by (auto simp: has_version_def)
  then obtain arr where arr: "?R n = Some arr"
    using stored_lookup [OF inv] by blast
  have z: "get ?R n (Some 0) = Some (hd arr) \<and> hd arr \<in> set arr \<and>
           (\<forall>t \<in> set arr. version t \<le> version (hd arr))"
    by (rule get_falsy_latest [OF inv arr]) (simp add: truthy_def)
  have u: "get ?R n None = Some (hd arr)"
    using get_falsy_latest [OF inv arr, of None] by (simp add: truthy_def)
  have st: "hd arr \<in> stored ?R" using z arr by (auto simp: stored_def)
  have nsl: "ns (hd arr) = Some n" using inv arr z by (simp add: reg_inv_def)
  have mx: "\<forall>t \<in> stored ?R. ns t = Some n \<longrightarrow> version t \<le> version (hd arr)"
  proof (intro ballI impI)
    fix t assume "t \<in> stored ?R" "ns t = Some n"
    then have "t \<in> set arr" using stored_lookup [OF inv] arr by fastforce
    then show "version t \<le> version (hd arr)" using z by blast
  qed
  show ?thesis using z u st nsl mx by blast
qed

text \<open>C10. For a namespace that has a registered schema, \<^verbatim>\<open>get(ns, 0)\<close> returns what
  \<^verbatim>\<open>get(ns)\<close> returns: a registered schema of the namespace whose version is the
  highest of the namespace. A version argument of 0 is falsy, and is treated as absent.\<close>

theorem get_zero_is_latest:
  assumes "has_version (registered ss) n v"
  shows "\<exists>l. get (registered ss) n (Some 0) = Some l \<and> get (registered ss) n None = Some l \<and>
             l \<in> stored (registered ss) \<and> ns l = Some n \<and>
             (\<forall>t \<in> stored (registered ss). ns t = Some n \<longrightarrow> version t \<le> version l)"
  using assms by (rule get_falsy_is_latest)

theorem get_zero_is_latest_witness:
  "has_version (registered [user_v1, user_v3, user_v0]) ''User'' 0
   \<and> get (registered [user_v1, user_v3, user_v0]) ''User'' (Some 0) = Some user_v3
   \<and> get (registered [user_v1, user_v3, user_v0]) ''User'' None = Some user_v3"
proof -
  have r: "registered [user_v1, user_v3, user_v0] = [''User'' \<mapsto> [user_v3, user_v1, user_v0]]"
    by (simp add: register_defs examples_defs)
  have h: "has_version (registered [user_v1, user_v3, user_v0]) ''User'' 0"
    unfolding has_version_def r stored_single by (simp add: examples_defs)
  from get_zero_is_latest [OF h] h show ?thesis
    by (simp add: r get_def truthy_def)
qed

text \<open>C7, as amended. For a namespace without a slash and a version other than 0 and
  below \<open>2\<^sup>5\<^sup>3\<close>: every registered schema of that namespace and version is what
  \<^verbatim>\<open>decode\<close> returns for its marker, and when the namespace has no such version
  \<^verbatim>\<open>decode\<close> of the marker returns nothing. The marker of the null schema decodes to
  the null schema.\<close>

theorem decode_encode_roundtrip:
  assumes "CHR ''/'' \<notin> set n" and "v \<noteq> 0" and "v < max_safe"
  shows "(\<forall>s \<in> stored (registered (ss :: 'd schema list)).
            ns s = Some n \<and> version s = v \<longrightarrow>
            decode to_double (registered ss) (encode big s) = Some s)
       \<and> decode to_double (registered ss) (encode big (kNullSchema :: 'd schema)) =
           Some kNullSchema
       \<and> (\<not> has_version (registered ss) n v \<longrightarrow>
            decode to_double (registered ss)
              (encode big \<lparr>ns = Some n, version = v, upgrade = u\<rparr>) = None)"
proof (intro conjI ballI impI)
  fix s :: "'d schema"
  assume s: "s \<in> stored (registered ss)" "ns s = Some n \<and> version s = v"
  have e: "encode big s = n @ ''/'' @ toString big v"
    using s(2) by (simp add: encode_def)
  have "decode to_double (registered ss) (encode big s) = get (registered ss) n (Some (int v))"
    by (simp only: e decode_marker [OF assms(1,3)])
  also have "\<dots> = Some s"
    using get_stored_version [OF reg_inv_registered s(1)] s(2) assms(2) by simp
  finally show "decode to_double (registered ss) (encode big s) = Some s" .
next
  show "decode to_double (registered ss) (encode big (kNullSchema :: 'd schema)) =
          Some kNullSchema"
    by (rule decode_null)
next
  assume no: "\<not> has_version (registered ss) n v"
  have e: "encode big \<lparr>ns = Some n, version = v, upgrade = u\<rparr> = n @ ''/'' @ toString big v"
    by (simp add: encode_def)
  have "decode to_double (registered ss) (encode big \<lparr>ns = Some n, version = v, upgrade = u\<rparr>) =
          get (registered ss) n (Some (int v))"
    by (simp only: e decode_marker [OF assms(1,3)])
  also have "\<dots> = None"
  proof (rule get_unregistered_version [OF _ _ reg_inv_registered])
    show "int v \<noteq> 0" using assms(2) by simp
    show "\<forall>s \<in> stored (registered ss). \<not> (ns s = Some n \<and> int (version s) = int v)"
      using no by (auto simp: has_version_def)
  qed
  finally show "decode to_double (registered ss)
                  (encode big \<lparr>ns = Some n, version = v, upgrade = u\<rparr>) = None" .
qed

theorem decode_encode_roundtrip_witness:
  "decode int (registered [user_v1, user_v2]) (encode (\<lambda>_. ''1e+21'') user_v2) = Some user_v2
   \<and> decode int (registered [user_v1, user_v2]) (encode (\<lambda>_. ''1e+21'') (kNullSchema :: nat schema)) =
       Some kNullSchema
   \<and> \<not> has_version (registered [user_v1, user_v2]) ''User'' 5
   \<and> decode int (registered [user_v1, user_v2]) ''User/5'' = None"
proof -
  have a: "CHR ''/'' \<notin> set ''User''" by simp
  have nz: "(2::nat) \<noteq> 0" "(5::nat) \<noteq> 0" by simp_all
  have sf: "(2::nat) < max_safe" "(5::nat) < max_safe" by (simp_all add: max_safe_def)
  have st: "stored (registered [user_v1, user_v2]) = {user_v2, user_v1}"
    by (simp add: registered_examples stored_single)
  have m: "user_v2 \<in> stored (registered [user_v1, user_v2])"
    by (simp add: st)
  have p: "ns user_v2 = Some ''User'' \<and> version user_v2 = 2"
    by (simp add: user_v2_def)
  have h: "\<not> has_version (registered [user_v1, user_v2]) ''User'' 5"
    unfolding has_version_def st by (simp add: examples_defs)
  have e: "encode (\<lambda>_. ''1e+21'')
             \<lparr>ns = Some ''User'', version = 5,
              upgrade = None :: (nat \<Rightarrow> schema_ref \<Rightarrow> nat) option\<rparr> = ''User/5''"
    by (simp add: encode_def toString_def max_safe_def decimal_small)
  note t2 = decode_encode_roundtrip [OF a nz(1) sf(1), of "[user_v1, user_v2]" int
      "\<lambda>_. ''1e+21''" None]
  note t5 = decode_encode_roundtrip [OF a nz(2) sf(2), of "[user_v1, user_v2]" int
      "\<lambda>_. ''1e+21''" None]
  have c1: "decode int (registered [user_v1, user_v2]) (encode (\<lambda>_. ''1e+21'') user_v2) =
              Some user_v2"
    using t2 m p by blast
  have c2: "decode int (registered [user_v1, user_v2])
              (encode (\<lambda>_. ''1e+21'') (kNullSchema :: nat schema)) = Some kNullSchema"
    using t2 by blast
  have "decode int (registered [user_v1, user_v2])
          (encode (\<lambda>_. ''1e+21'')
             \<lparr>ns = Some ''User'', version = 5,
              upgrade = None :: (nat \<Rightarrow> schema_ref \<Rightarrow> nat) option\<rparr>) = None"
    using t5 h by blast
  then have c3: "decode int (registered [user_v1, user_v2]) ''User/5'' = None"
    by (simp only: e)
  show ?thesis using c1 c2 h c3 by blast
qed

text \<open>C7 as stated fails in four ways. A registered schema of version 0 decodes to the
  latest schema of its namespace; the marker of the unregistered pair \<^verbatim>\<open>User\<close>, 0
  decodes to a schema; a registered schema whose namespace holds a slash decodes to
  nothing; and a registered schema of version \<open>10\<^sup>2\<^sup>1\<close>, which is written
  \<^verbatim>\<open>1e+21\<close> and read back as 1, decodes to nothing.\<close>

theorem decode_encode_counterexample:
  "registered [user_v1, user_v0] ''User'' = Some [user_v1, user_v0]
   \<and> decode int (registered [user_v1, user_v0]) (encode (\<lambda>_. ''1e+21'') user_v0) = Some user_v1
   \<and> user_v1 \<noteq> user_v0
   \<and> registered [user_v1] ''User'' = Some [user_v1]
   \<and> decode int (registered [user_v1]) ''User/0'' = Some user_v1
   \<and> registered [slash_v1] ''a/b'' = Some [slash_v1]
   \<and> decode int (registered [slash_v1]) (encode (\<lambda>_. ''1e+21'') slash_v1) = None
   \<and> registered [user_huge] ''User'' = Some [user_huge]
   \<and> encode (\<lambda>_. ''1e+21'') user_huge = ''User/1e+21''
   \<and> decode int (registered [user_huge]) (encode (\<lambda>_. ''1e+21'') user_huge) = None"
  apply (simp add: registered_examples)
  apply (simp add: decode_def encode_def toString_def max_safe_def examples_defs decimal_small
      split.simps get_def truthy_def parseInt_def strip_sign_def strip_radix_def digit_val_def
      isWhiteSpace_def)
  done

section \<open>Properties of upgrading\<close>












section \<open>Properties of building a message\<close>

lemma scan_loop_result:
  "scan_loop has pf vals (f, n, ms) =
     (f\<lparr>bf_ids := bf_ids f @ map fst vals\<rparr>, n + length vals,
      ms @ map snd (filter (\<lambda>(i, v). \<not> has pf i) vals))"
  by (induction vals arbitrary: f n ms) (auto simp: scan_step_def bf_add_def)

lemma scheduler_forEach_scan:
  "scheduler_forEach (scan_step has pf) vals st = scan_loop has pf vals st"
  by (induction vals arbitrary: st) simp_all

text \<open>\<^verbatim>\<open>buildAsync\<close> computes what \<^verbatim>\<open>build\<close> computes.\<close>

lemma buildAsync_build:
  "buildAsync m has falsy current peerFilter vals L P C org inc low =
   build m has falsy current peerFilter vals L P C org inc low"
  by (simp add: buildAsync_def build_def Let_def scheduler_forEach_scan split: option.splits)

lemma build_filter_params:
  "bf_size (sm_filter (build m has falsy current peerFilter vals L P C org inc low)) = max 1 (max L P)"
  "bf_fpr (sm_filter (build m has falsy current peerFilter vals L P C org inc low)) =
     build_fpr m low (max 1 (max L P)) C"
  by (simp_all add: build_def Let_def scan_loop_result SyncMessage_new_def BloomFilter_new_def
      split: option.splits)

text \<open>Without a peer filter, or with \<^verbatim>\<open>includeMissing\<close> false, \<^verbatim>\<open>build\<close> does not look
  at the iterator at all: the message carries the filter as constructed, the size it was
  given and no values.\<close>

lemma build_filter_only:
  assumes "peerFilter = None \<or> \<not> inc"
  shows "build m has falsy current peerFilter vals L P C org inc low =
           \<lparr>sm_orgId = org, sm_buildVersion = current,
            sm_filter = BloomFilter_new (max 1 (max L P)) (build_fpr m low (max 1 (max L P)) C),
            sm_size = L, sm_values = [], sm_accessDenied = None\<rparr>"
  using assms by (auto simp: build_def Let_def SyncMessage_new_def split: option.splits)

text \<open>C2. With no peer filter, or with \<^verbatim>\<open>includeMissing\<close> false, the identifiers the
  iterator yields are to be added to the local filter. \<^verbatim>\<open>build\<close> does not do it: for
  an iterator that yields the one entry \<^verbatim>\<open>a\<close>, the filter of the message holds no
  identifier, in either case, whatever the number operations and the expected number of
  cycles are. The values payload is empty, as stated.\<close>

theorem build_without_peer_filter_empty:
  "bf_ids (sm_filter (build m (\<lambda>f i. i \<in> set (bf_ids f)) (\<lambda>v. v = 0) (1::nat) None
                        [(''a'', 7::nat)] 1 0 c ''org'' True False)) = []
   \<and> bf_ids (sm_filter (build m (\<lambda>f i. i \<in> set (bf_ids f)) (\<lambda>v. v = 0) (1::nat)
                          (Some (BloomFilter_new 1 (js_half m)))
                          [(''a'', 7::nat)] 1 1 c ''org'' False False)) = []
   \<and> sm_values (build m (\<lambda>f i. i \<in> set (bf_ids f)) (\<lambda>v. v = 0) (1::nat) None
                  [(''a'', 7::nat)] 1 0 c ''org'' True False) = []"
  by (simp add: build_def Let_def SyncMessage_new_def BloomFilter_new_def)

text \<open>C5. With a peer filter and \<^verbatim>\<open>includeMissing\<close> true, the local filter is the freshly
  constructed one with the identifier of every pair added, in the iterator's order; the
  values of the message are the commits whose identifier the peer filter does not have,
  in the iterator's order; the size is the number of pairs; the organisation is the one
  given.\<close>

theorem build_with_peer_filter:
  "sm_filter (build m has falsy current (Some pf) vals L P C org True low) =
     \<lparr>bf_size = max 1 (max L P), bf_fpr = build_fpr m low (max 1 (max L P)) C,
      bf_ids = map fst vals\<rparr>
   \<and> sm_values (build m has falsy current (Some pf) vals L P C org True low) =
       map snd (filter (\<lambda>(i, v). \<not> has pf i) vals)
   \<and> sm_size (build m has falsy current (Some pf) vals L P C org True low) = length vals
   \<and> sm_orgId (build m has falsy current (Some pf) vals L P C org True low) = org"
  by (simp add: build_def Let_def scan_loop_result SyncMessage_new_def BloomFilter_new_def)

section \<open>Properties of decoding a message\<close>

lemma decode_commits_result:
  "decode_commits fromJS cs vals =
     vals @ concat (map (\<lambda>c. case fromJS c of Inl _ \<Rightarrow> [] | Inr v \<Rightarrow> [v]) cs)"
  by (induction cs arbitrary: vals) (auto split: sum.splits)

text \<open>\<^verbatim>\<open>deserialize\<close> is tolerant: once the filter has been read, the message holds the
  filter, the commits that decode (in order), and the denial list or the empty one.\<close>

lemma deserialize_tolerant:
  assumes "filter_deserialize (BloomFilter_new 1 (js_half m)) (w_f decoder) = Inr f"
  shows "deserialize m filter_deserialize fromJS org decoder =
           Inr \<lparr>sm_orgId = org, sm_buildVersion = w_ver decoder, sm_filter = f,
                sm_size = w_s decoder,
                sm_values = concat (map (\<lambda>c. case fromJS org c of Inl _ \<Rightarrow> [] | Inr v \<Rightarrow> [v])
                                     (case w_c decoder of None \<Rightarrow> [] | Some cs \<Rightarrow> cs)),
                sm_accessDenied = Some (case w_ad decoder of None \<Rightarrow> [] | Some ad \<Rightarrow> ad)\<rparr>"
  using assms by (simp add: deserialize_def decode_commits_result)

lemma scheduler_map_fails:
  "c \<in> set cs \<Longrightarrow> isl (body c) \<Longrightarrow> isl (scheduler_map body cs)"
  by (induction cs) (auto split: sum.splits)

text \<open>\<^verbatim>\<open>decodeAsync\<close> has no \<^verbatim>\<open>try\<close> around \<^verbatim>\<open>Commit.fromJS\<close>: one commit that does
  not decode rejects the whole message.\<close>

lemma decodeAsync_rejects:
  assumes "w_c decoder = Some cs" and "c \<in> set cs" and "isl (fromJS org c)"
  shows "isl (decodeAsync m filter_deserialize fromJS falsy current org decoder)"
  using scheduler_map_fails [OF assms(2), of "fromJS org"] assms(1,3)
  by (auto simp: decodeAsync_def isl_def split: sum.splits)

lemma decodeAsync_absent_keys:
  assumes "filter_deserialize (BloomFilter_new 1 (js_half m)) (w_f decoder) = Inr f"
    and "w_c decoder = None"
  shows "decodeAsync m filter_deserialize fromJS falsy current org decoder =
           Inr \<lparr>sm_orgId = org,
                sm_buildVersion = (if falsy (w_ver decoder) then current else w_ver decoder),
                sm_filter = f, sm_size = w_s decoder, sm_values = [],
                sm_accessDenied = Some (case w_ad decoder of None \<Rightarrow> [] | Some ad \<Rightarrow> ad)\<rparr>"
  using assms by (simp add: decodeAsync_def SyncMessage_new_def)

text \<open>C6. Both ways of decoding are to skip a commit that does not decode and keep the
  others. For a message of three commits whose second one does not decode,
  \<^verbatim>\<open>deserialize\<close> keeps the first and the third, and \<^verbatim>\<open>decodeAsync\<close> fails as a
  whole.\<close>

theorem decodeAsync_corrupted_commit:
  "decodeAsync m (\<lambda>f ids. Inr (f\<lparr>bf_ids := ids\<rparr>))
       (\<lambda>org c. if c = (0::nat) then Inl DecodeError else Inr c) (\<lambda>v. v = 0) (1::nat) ''org''
       \<lparr>w_ver = 1, w_f = [''a''], w_s = 3, w_c = Some [1, 0, 2], w_ad = None\<rparr>
     = Inl DecodeError
   \<and> deserialize m (\<lambda>f ids. Inr (f\<lparr>bf_ids := ids\<rparr>))
       (\<lambda>org c. if c = (0::nat) then Inl DecodeError else Inr c) ''org''
       \<lparr>w_ver = 1::nat, w_f = [''a''], w_s = 3, w_c = Some [1, 0, 2], w_ad = None\<rparr>
     = Inr \<lparr>sm_orgId = ''org'', sm_buildVersion = 1,
            sm_filter = \<lparr>bf_size = 1, bf_fpr = js_half m, bf_ids = [''a'']\<rparr>,
            sm_size = 3, sm_values = [1, 2], sm_accessDenied = Some []\<rparr>"
  by (simp add: decodeAsync_def deserialize_def BloomFilter_new_def)

section \<open>Properties of the authorization rules\<close>

lemma builtin_find:
  "find (\<lambda>e. strict_eq (rulePath e) (PathString repoId)) (kBuiltinAuthRules :: 'db auth_config) =
     (if repoId = ''/sys/users'' then Some (kBuiltinAuthRules ! 0)
      else if repoId = ''/sys/sessions'' then Some (kBuiltinAuthRules ! 1)
      else if repoId = ''/sys/stats'' then Some (kBuiltinAuthRules ! 2)
      else None)"
  by (simp add: kBuiltinAuthRules_def)

text \<open>The fourth built-in rule has a \<^verbatim>\<open>RegExp\<close> path, and the loop over the built-in
  rules compares paths with \<^verbatim>\<open>===\<close>: it never selects that rule. Outside the three
  exact paths the answer is the first user rule that matches, or nothing.\<close>

lemma authRuleForRepo_other:
  assumes "g p \<noteq> ''/sys/users''" "g p \<noteq> ''/sys/sessions''" "g p \<noteq> ''/sys/stats''"
  shows "authRuleForRepo g nrm rules p =
           map_option rule (find (user_rule_matches nrm (g p) p) rules)"
  using assms by (simp add: authRuleForRepo_def builtin_find)

text \<open>The three exact built-in paths are answered before any user rule is looked at.\<close>

lemma authRuleForRepo_builtin_first:
  assumes "g p \<in> {''/sys/users'', ''/sys/sessions'', ''/sys/stats''}"
  shows "authRuleForRepo g nrm rules p = authRuleForRepo g nrm [] p"
    and "authRuleForRepo g nrm rules p \<noteq> None"
  using assms by (auto simp: authRuleForRepo_def builtin_find)

lemma repoIdOf_examples:
  "repoIdOf ''/sys/foo/item'' = ''/sys/foo''"
  "repoIdOf ''/sys/foo'' = ''/sys/foo''"
  "repoIdOf ''/data/a'' = ''/data/a''"
  "repoIdOf ''/data/b'' = ''/data/b''"
  by (simp_all add: repoIdOf_def split.simps)

text \<open>C1. A path under \<^verbatim>\<open>/sys/\<close> other than the three exact ones is to get the built-in
  catch-all rule, which lets \<^verbatim>\<open>root\<close> in and nobody else. For \<^verbatim>\<open>/sys/foo/item\<close>
  \<^verbatim>\<open>authRuleForRepo\<close> finds no rule when no user rule is registered, and when a user
  rule is registered for \<^verbatim>\<open>/sys/foo\<close> it returns that rule, here one that lets
  \<^verbatim>\<open>alice\<close> write.\<close>

theorem authRuleForRepo_sys_catch_all_missed:
  "authRuleForRepo repoIdOf id ([] :: unit auth_config) ''/sys/foo/item'' = None
   \<and> (case registerAuthRule repoIdOf (PathString ''/sys/foo'') (\<lambda>_ _ _ _ _. True)
             ([] :: unit auth_config) of
        Inl _ \<Rightarrow> False
      | Inr rules \<Rightarrow>
          (case authRuleForRepo repoIdOf id rules ''/sys/foo/item'' of
             None \<Rightarrow> False
           | Some r \<Rightarrow> r () ''/sys/foo'' ''item'' \<lparr>owner = ''alice''\<rparr> Write))"
  by (simp add: authRuleForRepo_def builtin_find registerAuthRule_def repoIdOf_examples
      user_rule_matches_def)

text \<open>\<^verbatim>\<open>registerAuthRule\<close> succeeds exactly when every rule already registered has the
  path that is being registered.\<close>

lemma registerAuthRule_succeeds_iff:
  "(\<exists>rules'. registerAuthRule g path r rules = Inr rules') \<longleftrightarrow>
     (\<forall>e \<in> set rules. strict_eq (rulePath e)
        (case path of PathString p \<Rightarrow> PathString (g p) | PathRegExp _ \<Rightarrow> path))"
  by (simp add: registerAuthRule_def Let_def list_all_iff)

text \<open>C3. Registering a second rule for a path that already has one is to fail and leave
  the rules as they are; registering a rule for another path is to succeed. After a rule
  for \<^verbatim>\<open>/data/a\<close>, \<^verbatim>\<open>registerAuthRule\<close> accepts a second rule for \<^verbatim>\<open>/data/a\<close> (two
  rules then have that path) and raises for \<^verbatim>\<open>/data/b\<close>.\<close>

theorem registerAuthRule_inverted:
  "registerAuthRule repoIdOf (PathString ''/data/a'') (\<lambda>_ _ _ _ _. True) ([] :: unit auth_config) =
     Inr [\<lparr>rulePath = PathString ''/data/a'', rule = (\<lambda>_ _ _ _ _. True)\<rparr>]
   \<and> registerAuthRule repoIdOf (PathString ''/data/a'') (\<lambda>_ _ _ _ _. False)
       [\<lparr>rulePath = PathString ''/data/a'', rule = (\<lambda>_ _ _ _ _. True)\<rparr> :: unit auth_entry] =
     Inr [\<lparr>rulePath = PathString ''/data/a'', rule = (\<lambda>_ _ _ _ _. True)\<rparr>,
          \<lparr>rulePath = PathString ''/data/a'', rule = (\<lambda>_ _ _ _ _. False)\<rparr>]
   \<and> registerAuthRule repoIdOf (PathString ''/data/b'') (\<lambda>_ _ _ _ _. False)
       [\<lparr>rulePath = PathString ''/data/a'', rule = (\<lambda>_ _ _ _ _. True)\<rparr> :: unit auth_entry] =
     Inl (AssertionError ''Attempting to register multiple rules for the same path'')"
  by (simp add: registerAuthRule_def Let_def repoIdOf_examples)

end
